theory Spec2Isabelle
  imports Main
begin

text \<open>
  A model of the two-layer cache of \<^verbatim>\<open>pkg/cache/cache.go\<close>: an in-memory LRU cache in front
  of a Redis store, with \<^verbatim>\<open>New\<close>, \<^verbatim>\<open>Get\<close>, \<^verbatim>\<open>Set\<close>, \<^verbatim>\<open>Purge\<close> and \<^verbatim>\<open>Stats\<close>.
  Every operation is a function of the state of the orchestrator, the state of the remote
  store and the readings of the clock it makes, and returns its result with the new states.
\<close>

section \<open>Data model of pkg/cache/cache.go\<close>

text \<open>
  A \<^verbatim>\<open>[]byte\<close> payload is a list of 8-bit characters. A \<^verbatim>\<open>time.Time\<close> is an instant on
  one time line, counted in nanoseconds, and a \<^verbatim>\<open>time.Duration\<close> is a signed number of
  nanoseconds (it may be zero or negative); \<^verbatim>\<open>t.Add(d)\<close> is \<open>t + d\<close> and
  \<^verbatim>\<open>t.Before(u)\<close> is \<open>t < u\<close>. The range of \<^verbatim>\<open>time.Time\<close> is far wider than that of a
  64-bit \<^verbatim>\<open>time.Duration\<close>, so the sum is taken in the integers.
\<close>

type_synonym bytes = string
type_synonym time = int
type_synonym duration = int

text \<open>\<^verbatim>\<open>type cacheEntry struct { value []byte; expiresAt time.Time }\<close>\<close>

record cacheEntry =
  value_bytes :: bytes
  expiresAt :: time

text \<open>
  A handle on a Redis client. The only thing \<^verbatim>\<open>New\<close> says about the client it builds is the
  address it connects to (\<^verbatim>\<open>redis.NewClient(&redis.Options{Addr: opts.RedisAddr, DB: 0})\<close>).
\<close>

datatype redis_client = NewClient string

record Options =
  RedisAddr :: string
  DefaultTTL :: duration
  MaxMemEntries :: int
  RedisClient :: "redis_client option"

text \<open>
  The errors the package returns: the sentinel \<^verbatim>\<open>ErrNotFound\<close>, and the three wrapped errors
  \<^verbatim>\<open>"failed to create memory cache: %w"\<close>, \<^verbatim>\<open>"failed to connect to redis: %w"\<close> and
  \<^verbatim>\<open>"redis GET error: %w"\<close>, each carrying the error it wraps.
\<close>

datatype error =
    ErrNotFound
  | MemCacheError string
  | RedisConnectError string
  | RedisGetError string

text \<open>\<^verbatim>\<open>type Stats struct { MemHits, MemMisses, MemEvicts, MemLen int; MemKeys []interface{} }\<close>\<close>

record Stats =
  MemHits :: int
  MemMisses :: int
  MemEvicts :: int
  MemLen :: int
  MemKeys :: "string list"

section \<open>The in-memory collaborator: a bounded recency cache\<close>

text \<open>
  Modelled from the spec: the bounded recency-ordered cache primitive
  (\<^verbatim>\<open>github.com/hashicorp/golang-lru\<close>), an external collaborator whose code is not part of
  the repository. The orchestrator requires
  \<^verbatim>\<open>get(key) -> (value, present)\<close>, \<^verbatim>\<open>add(key, value)\<close> (which may evict the
  least-recently-used entry when over capacity), \<^verbatim>\<open>remove(key)\<close>, \<^verbatim>\<open>len()\<close> and
  \<^verbatim>\<open>keys()\<close>, and construction fails for a capacity \<open>\<le> 0\<close>.
  The entries are kept most recently used first.
\<close>

record lru_Cache =
  lru_size :: int
  lru_items :: "(string \<times> cacheEntry) list"

text \<open>Modelled from the spec: constructing the bounded local cache with capacity \<open>\<le> 0\<close> fails.\<close>

definition lru_New :: "int \<Rightarrow> string + lru_Cache" where
  "lru_New n =
     (if n \<le> 0 then Inl ''Must provide a positive size''
      else Inr \<lparr>lru_size = n, lru_items = []\<rparr>)"

text \<open>Modelled from the spec: \<^verbatim>\<open>get(key) -> (value, present)\<close>; a hit makes the key the most recent.\<close>

definition lru_Get :: "lru_Cache \<Rightarrow> string \<Rightarrow> cacheEntry option \<times> lru_Cache" where
  "lru_Get l k =
     (case map_of (lru_items l) k of
        None \<Rightarrow> (None, l)
      | Some e \<Rightarrow> (Some e, l\<lparr>lru_items := (k, e) # filter (\<lambda>p. fst p \<noteq> k) (lru_items l)\<rparr>))"

text \<open>
  Modelled from the spec: \<^verbatim>\<open>add(key, value)\<close>; an existing key is overwritten and becomes the
  most recent, a new key is put in front and the least recently used entry is dropped when the
  cache is over capacity.
\<close>

definition lru_Add :: "lru_Cache \<Rightarrow> string \<Rightarrow> cacheEntry \<Rightarrow> lru_Cache" where
  "lru_Add l k e =
     (case map_of (lru_items l) k of
        Some old \<Rightarrow> l\<lparr>lru_items := (k, e) # filter (\<lambda>p. fst p \<noteq> k) (lru_items l)\<rparr>
      | None \<Rightarrow>
          (if lru_size l < int (length ((k, e) # lru_items l))
           then l\<lparr>lru_items := butlast ((k, e) # lru_items l)\<rparr>
           else l\<lparr>lru_items := (k, e) # lru_items l\<rparr>))"

text \<open>Modelled from the spec: \<^verbatim>\<open>remove(key)\<close>, a no-op when the key is absent.\<close>

definition lru_Remove :: "lru_Cache \<Rightarrow> string \<Rightarrow> lru_Cache" where
  "lru_Remove l k = l\<lparr>lru_items := filter (\<lambda>p. fst p \<noteq> k) (lru_items l)\<rparr>"

text \<open>Modelled from the spec: \<^verbatim>\<open>len()\<close> and \<^verbatim>\<open>keys()\<close> (oldest first).\<close>

definition lru_Len :: "lru_Cache \<Rightarrow> int" where
  "lru_Len l = int (length (lru_items l))"

definition lru_Keys :: "lru_Cache \<Rightarrow> string list" where
  "lru_Keys l = rev (map fst (lru_items l))"

text \<open>What the local layer holds for a key, without touching the recency order.\<close>

definition lru_Peek :: "lru_Cache \<Rightarrow> string \<Rightarrow> cacheEntry option" where
  "lru_Peek l k = map_of (lru_items l) k"

section \<open>The remote collaborator: a key-value store\<close>

text \<open>
  Modelled from the spec: the remote key-value store client
  (\<^verbatim>\<open>github.com/redis/go-redis/v9\<close>), an external collaborator whose code is not part of the
  repository. The orchestrator requires \<^verbatim>\<open>get(key) -> (bytes, found)\<close>,
  \<^verbatim>\<open>set(key, bytes, ttl)\<close>, \<^verbatim>\<open>delete(key)\<close> and \<^verbatim>\<open>ping() -> ok/error\<close>, and every call may
  fail (connectivity, protocol).

  The state of the store is its contents (for each key the value and the time-to-live it was
  written with), whether it is failing at the moment (\<open>fault\<close>: the error every call then
  returns, and no call has an effect), and the commands the client has issued so far.
\<close>

datatype redis_cmd = PING | GET string | SET string bytes duration | DEL string

record redis_server =
  store :: "string \<rightharpoonup> bytes \<times> duration"
  fault :: "string option"
  commands :: "redis_cmd list"

text \<open>The three answers to a lookup: a value, \<^verbatim>\<open>redis.Nil\<close>, or any other error.\<close>

datatype redis_reply = RedisVal bytes | RedisNil | RedisErr string

definition issue :: "redis_cmd \<Rightarrow> redis_server \<Rightarrow> redis_server" where
  "issue cmd r = r\<lparr>commands := commands r @ [cmd]\<rparr>"

text \<open>Modelled from the spec: \<^verbatim>\<open>ping() -> ok/error\<close>.\<close>

definition redis_Ping :: "redis_server \<Rightarrow> string option \<times> redis_server" where
  "redis_Ping r = (fault r, issue PING r)"

text \<open>Modelled from the spec: \<^verbatim>\<open>get(key) -> (bytes, found)\<close>, or an error.\<close>

definition redis_Get :: "redis_server \<Rightarrow> string \<Rightarrow> redis_reply \<times> redis_server" where
  "redis_Get r k =
     ((case fault r of
         Some err \<Rightarrow> RedisErr err
       | None \<Rightarrow> (case store r k of None \<Rightarrow> RedisNil | Some (v, ttl) \<Rightarrow> RedisVal v)),
      issue (GET k) r)"

text \<open>Modelled from the spec: \<^verbatim>\<open>set(key, bytes, ttl)\<close>; the result is not looked at by the caller.\<close>

definition redis_Set :: "redis_server \<Rightarrow> string \<Rightarrow> bytes \<Rightarrow> duration \<Rightarrow> redis_server" where
  "redis_Set r k v ttl =
     (case fault r of
        Some err \<Rightarrow> issue (SET k v ttl) r
      | None \<Rightarrow> issue (SET k v ttl) (r\<lparr>store := (store r)(k \<mapsto> (v, ttl))\<rparr>))"

text \<open>Modelled from the spec: \<^verbatim>\<open>delete(key)\<close>, a no-op when the key is absent.\<close>

definition redis_Del :: "redis_server \<Rightarrow> string \<Rightarrow> redis_server" where
  "redis_Del r k =
     (case fault r of
        Some err \<Rightarrow> issue (DEL k) r
      | None \<Rightarrow> issue (DEL k) (r\<lparr>store := (store r)(k := None)\<rparr>))"

section \<open>The orchestrator\<close>

text \<open>
  \<^verbatim>\<open>type Cache struct { memCache *lru.Cache; redisClient *redis.Client;
  defaultTTL time.Duration; ctx context.Context }\<close>.
  The context is \<^verbatim>\<open>context.Background()\<close> and carries nothing. The in-memory cache is owned
  by the orchestrator and is part of its state; the remote store is shared, so its state is
  passed to each operation and returned by it.
\<close>

record Cache =
  memCache :: lru_Cache
  redisClient :: redis_client
  defaultTTL :: duration

text \<open>
  \<^verbatim>\<open>func New(opts Options) (*Cache, error)\<close>. The second argument is the state of the store
  the client talks to; it is pinged only when no client is supplied.
\<close>

definition New :: "Options \<Rightarrow> redis_server \<Rightarrow> (error + Cache) \<times> redis_server" where
  "New opts r =
     (case lru_New (MaxMemEntries opts) of
        Inl err \<Rightarrow> (Inl (MemCacheError err), r)
      | Inr mem \<Rightarrow>
          (case RedisClient opts of
             Some cl \<Rightarrow>
               (Inr \<lparr>memCache = mem, redisClient = cl, defaultTTL = DefaultTTL opts\<rparr>, r)
           | None \<Rightarrow>
               (case fst (redis_Ping r) of
                  Some err \<Rightarrow> (Inl (RedisConnectError err), snd (redis_Ping r))
                | None \<Rightarrow>
                    (Inr \<lparr>memCache = mem, redisClient = NewClient (RedisAddr opts),
                          defaultTTL = DefaultTTL opts\<rparr>,
                     snd (redis_Ping r)))))"

text \<open>
  \<^verbatim>\<open>func (c *Cache) Get(id string) ([]byte, error)\<close>. The parameter \<^verbatim>\<open>id\<close> is written
  \<open>key\<close> here and below (\<open>id\<close> is HOL's identity function). The clock is read at most
  twice: \<open>now1\<close> is the reading compared with \<^verbatim>\<open>entry.expiresAt\<close> (line 93) and \<open>now2\<close>
  the reading from which the repopulated entry's expiry is computed (line 105).
  Both the expired and the absent case go on with steps 2 and 3 of the function, the lookup
  in Redis, which is \<open>Get_redis\<close>.
\<close>

definition Get_redis ::
  "Cache \<Rightarrow> redis_server \<Rightarrow> time \<Rightarrow> string \<Rightarrow> (error + bytes) \<times> Cache \<times> redis_server" where
  "Get_redis c r now2 key =
     (case fst (redis_Get r key) of
        RedisVal val \<Rightarrow>
          (Inr val,
           c\<lparr>memCache := lru_Add (memCache c) key
                \<lparr>value_bytes = val, expiresAt = now2 + defaultTTL c\<rparr>\<rparr>,
           snd (redis_Get r key))
      | RedisErr err \<Rightarrow> (Inl (RedisGetError err), c, snd (redis_Get r key))
      | RedisNil \<Rightarrow> (Inl ErrNotFound, c, snd (redis_Get r key)))"

definition Cache_Get ::
  "Cache \<Rightarrow> redis_server \<Rightarrow> time \<Rightarrow> time \<Rightarrow> string \<Rightarrow> (error + bytes) \<times> Cache \<times> redis_server" where
  "Cache_Get c r now1 now2 key =
     (case lru_Get (memCache c) key of
        (Some entry, mem) \<Rightarrow>
          (if now1 < expiresAt entry then (Inr (value_bytes entry), c\<lparr>memCache := mem\<rparr>, r)
           else Get_redis (c\<lparr>memCache := lru_Remove mem key\<rparr>) r now2 key)
      | (None, mem) \<Rightarrow> Get_redis (c\<lparr>memCache := mem\<rparr>) r now2 key)"

text \<open>\<^verbatim>\<open>func (c *Cache) Set(id string, value []byte)\<close>, with the reading of the clock.\<close>

definition Cache_Set ::
  "Cache \<Rightarrow> redis_server \<Rightarrow> time \<Rightarrow> string \<Rightarrow> bytes \<Rightarrow> Cache \<times> redis_server" where
  "Cache_Set c r now key v =
     (c\<lparr>memCache := lru_Add (memCache c) key
          \<lparr>value_bytes = v, expiresAt = now + defaultTTL c\<rparr>\<rparr>,
      redis_Set r key v (defaultTTL c))"

text \<open>\<^verbatim>\<open>func (c *Cache) Purge(id string)\<close>\<close>

definition Cache_Purge :: "Cache \<Rightarrow> redis_server \<Rightarrow> string \<Rightarrow> Cache \<times> redis_server" where
  "Cache_Purge c r key = (c\<lparr>memCache := lru_Remove (memCache c) key\<rparr>, redis_Del r key)"

text \<open>
  \<^verbatim>\<open>func (c *Cache) Stats() Stats\<close>: the composite literal names \<^verbatim>\<open>MemLen\<close> and
  \<^verbatim>\<open>MemKeys\<close> only, so the other fields hold Go's zero value.
\<close>

definition Cache_Stats :: "Cache \<Rightarrow> Stats" where
  "Cache_Stats c =
     \<lparr>MemHits = 0, MemMisses = 0, MemEvicts = 0,
      MemLen = lru_Len (memCache c), MemKeys = lru_Keys (memCache c)\<rparr>"

section \<open>Sequences of operations\<close>

text \<open>
  A caller's operations, each with the readings of the clock it makes, and \<open>OpRemote\<close> for
  whatever happens to the remote store between two calls (other clients, expiry of keys,
  the store going down or coming back).
\<close>

datatype op =
    OpGet string time time
  | OpSet string bytes time
  | OpPurge string
  | OpRemote redis_server

fun step :: "Cache \<times> redis_server \<Rightarrow> op \<Rightarrow> Cache \<times> redis_server" where
  "step (c, r) (OpGet key now1 now2) = snd (Cache_Get c r now1 now2 key)"
| "step (c, r) (OpSet key v now) = Cache_Set c r now key v"
| "step (c, r) (OpPurge key) = Cache_Purge c r key"
| "step (c, r) (OpRemote r') = (c, r')"

definition run :: "Cache \<times> redis_server \<Rightarrow> op list \<Rightarrow> Cache \<times> redis_server" where
  "run s ops = foldl step s ops"

text \<open>The clock does not go backwards: every reading is at or after the one before it.\<close>

fun clock_ok :: "time \<Rightarrow> op list \<Rightarrow> bool" where
  "clock_ok t [] = True"
| "clock_ok t (OpGet key now1 now2 # ops) = (t \<le> now1 \<and> now1 \<le> now2 \<and> clock_ok now2 ops)"
| "clock_ok t (OpSet key v now # ops) = (t \<le> now \<and> clock_ok now ops)"
| "clock_ok t (OpPurge key # ops) = clock_ok t ops"
| "clock_ok t (OpRemote r' # ops) = clock_ok t ops"

fun last_reading :: "time \<Rightarrow> op list \<Rightarrow> time" where
  "last_reading t [] = t"
| "last_reading t (OpGet key now1 now2 # ops) = last_reading now2 ops"
| "last_reading t (OpSet key v now # ops) = last_reading now ops"
| "last_reading t (OpPurge key # ops) = last_reading t ops"
| "last_reading t (OpRemote r' # ops) = last_reading t ops"

text \<open>What the \<^verbatim>\<open>Get\<close> calls of a sequence return, in order.\<close>

fun results :: "Cache \<times> redis_server \<Rightarrow> op list \<Rightarrow> (error + bytes) list" where
  "results s [] = []"
| "results (c, r) (OpGet key now1 now2 # ops) =
     fst (Cache_Get c r now1 now2 key) # results (step (c, r) (OpGet key now1 now2)) ops"
| "results s (x # ops) = results (step s x) ops"

section \<open>Notions used in the statements\<close>

text \<open>The local layer holds an entry for the key that has not expired at the reading \<open>now\<close>.\<close>

definition fresh_local :: "Cache \<Rightarrow> time \<Rightarrow> string \<Rightarrow> bool" where
  "fresh_local c now key =
     (case lru_Peek (memCache c) key of Some entry \<Rightarrow> now < expiresAt entry | None \<Rightarrow> False)"

text \<open>What \<^verbatim>\<open>Get\<close> returns for each answer of the remote store.\<close>

definition remote_answer :: "redis_reply \<Rightarrow> error + bytes" where
  "remote_answer reply =
     (case reply of
        RedisVal val \<Rightarrow> Inr val
      | RedisNil \<Rightarrow> Inl ErrNotFound
      | RedisErr err \<Rightarrow> Inl (RedisGetError err))"

text \<open>Every entry of the local layer has expired at the reading \<open>t\<close>.\<close>

definition all_stale :: "Cache \<Rightarrow> time \<Rightarrow> bool" where
  "all_stale c t = (\<forall>p \<in> set (lru_items (memCache c)). expiresAt (snd p) \<le> t)"

text \<open>The local layer holds no more entries than its capacity.\<close>

definition within_capacity :: "Cache \<Rightarrow> bool" where
  "within_capacity c = (lru_Len (memCache c) \<le> lru_size (memCache c))"

section \<open>Example states\<close>

text \<open>
  The configuration of the package's tests (ten entries, a time-to-live of sixty units), the
  orchestrator \<^verbatim>\<open>New\<close> builds from it, and the same with a time-to-live of zero.
\<close>

definition demo_opts :: Options where
  "demo_opts =
     \<lparr>RedisAddr = ''localhost:6379'', DefaultTTL = 60, MaxMemEntries = 10, RedisClient = None\<rparr>"

definition demo_cache :: Cache where
  "demo_cache =
     \<lparr>memCache = \<lparr>lru_size = 10, lru_items = []\<rparr>,
      redisClient = NewClient ''localhost:6379'', defaultTTL = 60\<rparr>"

definition zero_opts :: Options where
  "zero_opts =
     \<lparr>RedisAddr = ''localhost:6379'', DefaultTTL = 0, MaxMemEntries = 10, RedisClient = None\<rparr>"

definition bad_opts :: Options where
  "bad_opts =
     \<lparr>RedisAddr = ''localhost:6379'', DefaultTTL = 60, MaxMemEntries = 0, RedisClient = None\<rparr>"

text \<open>A healthy, empty store; a store that refuses every call; a store that holds one key.\<close>

definition empty_server :: redis_server where
  "empty_server = \<lparr>store = Map.empty, fault = None, commands = []\<rparr>"

definition down_server :: redis_server where
  "down_server = \<lparr>store = Map.empty, fault = Some ''connection refused'', commands = []\<rparr>"

definition flow_server :: redis_server where
  "flow_server =
     \<lparr>store = [''flow:key'' \<mapsto> (''flow data'', 60)], fault = None, commands = []\<rparr>"

text \<open>
  The configuration of \<^verbatim>\<open>cache_test.go\<close>: a client is supplied (the mock), the capacity is
  \<open>n\<close>, the time-to-live one minute; and the orchestrator \<^verbatim>\<open>New\<close> builds from it.
\<close>

definition mock_opts :: "int \<Rightarrow> Options" where
  "mock_opts n =
     \<lparr>RedisAddr = [], DefaultTTL = 60, MaxMemEntries = n,
      RedisClient = Some (NewClient ''redismock'')\<rparr>"

definition mock_cache :: "int \<Rightarrow> Cache" where
  "mock_cache n =
     \<lparr>memCache = \<lparr>lru_size = n, lru_items = []\<rparr>,
      redisClient = NewClient ''redismock'', defaultTTL = 60\<rparr>"

text \<open>
  \<^verbatim>\<open>TestCacheFlow\<close> after its step 4 has removed the key from the in-memory cache by hand
  (\<^verbatim>\<open>cache.memCache.Remove(testID)\<close>).
\<close>

definition flow_removed :: "Cache \<times> redis_server" where
  "flow_removed =
     (let s = run (mock_cache 1, empty_server)
                [OpGet ''flow:key'' 0 0, OpSet ''flow:key'' ''flow data'' 1,
                 OpGet ''flow:key'' 2 2]
      in ((fst s)\<lparr>memCache := lru_Remove (memCache (fst s)) ''flow:key''\<rparr>, snd s))"

text \<open>
  The local layer holds \<^verbatim>\<open>"old data"\<close> for \<^verbatim>\<open>"flow:key"\<close>, written at time 0 and expiring at
  time 60, and the remote store has since come to hold \<^verbatim>\<open>"flow data"\<close> for that key.
\<close>

definition stale_state :: "Cache \<times> redis_server" where
  "stale_state =
     run (demo_cache, empty_server) [OpSet ''flow:key'' ''old data'' 0, OpRemote flow_server]"

section \<open>Facts about the collaborators\<close>

lemma map_of_filter_neq [simp]: "map_of (filter (\<lambda>p. fst p \<noteq> k) xs) k = None"
  by (induction xs) auto

lemma lru_Peek_Remove [simp]: "lru_Peek (lru_Remove l k) k = None"
  by (simp add: lru_Peek_def lru_Remove_def)

lemma lru_Get_size [simp]: "lru_size (snd (lru_Get l k)) = lru_size l"
  by (simp add: lru_Get_def split: option.splits)

lemma lru_Remove_size [simp]: "lru_size (lru_Remove l k) = lru_size l"
  by (simp add: lru_Remove_def)

lemma lru_Add_size [simp]: "lru_size (lru_Add l k e) = lru_size l"
  by (simp add: lru_Add_def split: option.splits)

text \<open>With room for at least one entry, what was just added is what a lookup finds.\<close>

lemma lru_Peek_Add [simp]: "0 < lru_size l \<Longrightarrow> lru_Peek (lru_Add l k e) k = Some e"
  by (cases "lru_items l") (auto simp: lru_Peek_def lru_Add_def split: option.splits)

lemma lru_Peek_in_items: "lru_Peek l k = Some e \<Longrightarrow> (k, e) \<in> set (lru_items l)"
  by (simp add: lru_Peek_def map_of_SomeD)

lemma lru_Get_items: "set (lru_items (snd (lru_Get l k))) \<subseteq> set (lru_items l)"
  by (auto simp: lru_Get_def split: option.splits dest: map_of_SomeD)

lemma lru_Remove_items: "set (lru_items (lru_Remove l k)) \<subseteq> set (lru_items l)"
  by (auto simp: lru_Remove_def)

lemma lru_Add_items: "set (lru_items (lru_Add l k e)) \<subseteq> insert (k, e) (set (lru_items l))"
  by (auto simp: lru_Add_def split: option.splits if_splits dest: in_set_butlastD)

section \<open>The three paths of Get\<close>

lemma Get_fresh:
  "lru_Peek (memCache c) key = Some entry \<Longrightarrow> now1 < expiresAt entry \<Longrightarrow>
   Cache_Get c r now1 now2 key =
     (Inr (value_bytes entry), c\<lparr>memCache := snd (lru_Get (memCache c) key)\<rparr>, r)"
  by (simp add: Cache_Get_def lru_Get_def lru_Peek_def)

lemma Get_stale:
  "lru_Peek (memCache c) key = Some entry \<Longrightarrow> \<not> now1 < expiresAt entry \<Longrightarrow>
   Cache_Get c r now1 now2 key =
     Get_redis (c\<lparr>memCache := lru_Remove (memCache c) key\<rparr>) r now2 key"
  by (simp add: Cache_Get_def lru_Get_def lru_Peek_def lru_Remove_def)

lemma Get_absent:
  "lru_Peek (memCache c) key = None \<Longrightarrow>
   Cache_Get c r now1 now2 key = Get_redis c r now2 key"
  by (simp add: Cache_Get_def lru_Get_def lru_Peek_def)

lemma Get_redis_result: "fst (Get_redis c r now2 key) = remote_answer (fst (redis_Get r key))"
  by (simp add: Get_redis_def remote_answer_def split: redis_reply.splits)

lemma Get_redis_remote: "snd (snd (Get_redis c r now2 key)) = issue (GET key) r"
  by (simp add: Get_redis_def redis_Get_def split: redis_reply.splits)

lemma Get_redis_local:
  "fst (snd (Get_redis c r now2 key)) =
     (case fst (redis_Get r key) of
        RedisVal val \<Rightarrow>
          c\<lparr>memCache := lru_Add (memCache c) key
               \<lparr>value_bytes = val, expiresAt = now2 + defaultTTL c\<rparr>\<rparr>
      | RedisNil \<Rightarrow> c
      | RedisErr err \<Rightarrow> c)"
  by (simp add: Get_redis_def split: redis_reply.splits)

section \<open>What every operation preserves\<close>

lemma step_size [simp]: "lru_size (memCache (fst (step s x))) = lru_size (memCache (fst s))"
  by (cases s; cases x)
     (auto simp: Cache_Get_def Get_redis_def Cache_Set_def Cache_Purge_def
       split: prod.splits option.splits redis_reply.splits
       dest: arg_cong [where f = "\<lambda>p. lru_size (snd p)"])

lemma step_ttl [simp]: "defaultTTL (fst (step s x)) = defaultTTL (fst s)"
  by (cases s; cases x)
     (auto simp: Cache_Get_def Get_redis_def Cache_Set_def Cache_Purge_def
       split: prod.splits option.splits redis_reply.splits)

lemma run_Nil: "run s [] = s"
  by (simp add: run_def)

lemma run_Cons: "run s (x # ops) = run (step s x) ops"
  by (simp add: run_def)

lemma run_size [simp]: "lru_size (memCache (fst (run s ops))) = lru_size (memCache (fst s))"
  by (induction ops arbitrary: s) (simp_all add: run_Nil run_Cons)

lemma run_ttl [simp]: "defaultTTL (fst (run s ops)) = defaultTTL (fst s)"
  by (induction ops arbitrary: s) (simp_all add: run_Nil run_Cons)

lemma New_size: "fst (New opts r0) = Inr c0 \<Longrightarrow> 0 < lru_size (memCache c0)"
  by (auto simp: New_def lru_New_def split: if_splits option.splits)

lemma New_ttl: "fst (New opts r0) = Inr c0 \<Longrightarrow> defaultTTL c0 = DefaultTTL opts"
  by (auto simp: New_def lru_New_def split: if_splits option.splits)

lemma New_empty: "fst (New opts r0) = Inr c0 \<Longrightarrow> lru_items (memCache c0) = []"
  by (auto simp: New_def lru_New_def split: if_splits option.splits)

text \<open>
  Every orchestrator that \<^verbatim>\<open>New\<close> has built has room for at least one entry, whatever has
  been done with it since.
\<close>

lemma reach_size:
  "fst (New opts r0) = Inr c0 \<Longrightarrow> run (c0, r1) ops = (c, r) \<Longrightarrow> 0 < lru_size (memCache c)"
  using run_size [of "(c0, r1)" ops] New_size [of opts r0 c0] by simp

section \<open>The local layer stays within its capacity\<close>

lemma filter_key_shorter:
  "map_of xs k = Some e \<Longrightarrow> length (filter (\<lambda>p. fst p \<noteq> k) xs) < length xs"
  by (rule length_filter_less [of "(k, e)"]) (auto dest: map_of_SomeD)

lemma lru_Get_Len: "lru_Len (snd (lru_Get l k)) \<le> lru_Len l"
  using filter_key_shorter [of "lru_items l" k]
  by (auto simp: lru_Len_def lru_Get_def split: option.splits)

lemma lru_Remove_Len: "lru_Len (lru_Remove l k) \<le> lru_Len l"
  by (simp add: lru_Len_def lru_Remove_def)

lemma lru_Add_Len:
  "lru_Len l \<le> lru_size l \<Longrightarrow> lru_Len (lru_Add l k e) \<le> lru_size l"
  using filter_key_shorter [of "lru_items l" k]
  by (auto simp: lru_Len_def lru_Add_def split: option.splits)

lemma within_capacity_shrink:
  "within_capacity c \<Longrightarrow> lru_Len m \<le> lru_Len (memCache c) \<Longrightarrow>
   lru_size m = lru_size (memCache c) \<Longrightarrow> within_capacity (c\<lparr>memCache := m\<rparr>)"
  by (simp add: within_capacity_def)

lemma within_capacity_Add:
  "within_capacity c \<Longrightarrow> within_capacity (c\<lparr>memCache := lru_Add (memCache c) k e\<rparr>)"
  by (simp add: within_capacity_def lru_Add_Len)

lemma Get_redis_capacity:
  "within_capacity c \<Longrightarrow> within_capacity (fst (snd (Get_redis c r now2 key)))"
  by (simp add: Get_redis_local within_capacity_Add split: redis_reply.splits)

lemma Get_capacity:
  assumes "within_capacity c"
  shows "within_capacity (fst (snd (Cache_Get c r now1 now2 key)))"
proof (cases "lru_Peek (memCache c) key")
  case None
  with assms show ?thesis
    by (simp add: Get_absent Get_redis_capacity)
next
  case (Some entry)
  show ?thesis
  proof (cases "now1 < expiresAt entry")
    case True
    with Some assms show ?thesis
      by (simp add: Get_fresh within_capacity_shrink lru_Get_Len)
  next
    case False
    have "within_capacity (c\<lparr>memCache := lru_Remove (memCache c) key\<rparr>)"
      using assms by (simp add: within_capacity_shrink lru_Remove_Len)
    with Some False show ?thesis
      by (simp add: Get_stale Get_redis_capacity)
  qed
qed

lemma step_capacity: "within_capacity (fst s) \<Longrightarrow> within_capacity (fst (step s x))"
  by (cases s; cases x)
     (simp_all add: Get_capacity Cache_Set_def Cache_Purge_def within_capacity_Add
        within_capacity_shrink lru_Remove_Len)

lemma run_capacity: "within_capacity (fst s) \<Longrightarrow> within_capacity (fst (run s ops))"
  by (induction ops arbitrary: s) (simp_all add: run_Nil run_Cons step_capacity)

text \<open>
  Whatever is done with an orchestrator that \<^verbatim>\<open>New\<close> has built, the number of entries that
  \<^verbatim>\<open>Stats\<close> reports is at most the configured \<^verbatim>\<open>MaxMemEntries\<close>.
\<close>

lemma reach_capacity:
  assumes "fst (New opts r0) = Inr c0" and "run (c0, r1) ops = (c, r)"
  shows "MemLen (Cache_Stats c) \<le> MaxMemEntries opts"
proof -
  have "within_capacity c0" and "lru_size (memCache c0) = MaxMemEntries opts"
    using assms(1)
    by (auto simp: New_def lru_New_def within_capacity_def lru_Len_def
        split: if_splits option.splits)
  with assms(2) run_capacity [of "(c0, r1)" ops] run_size [of "(c0, r1)" ops]
  show ?thesis
    by (simp add: within_capacity_def Cache_Stats_def)
qed

section \<open>With a time-to-live of zero, every local entry has expired\<close>

lemma all_stale_mono: "all_stale c t \<Longrightarrow> t \<le> t' \<Longrightarrow> all_stale c t'"
  by (fastforce simp: all_stale_def)

lemma all_stale_subset:
  "all_stale c t \<Longrightarrow> set (lru_items m) \<subseteq> set (lru_items (memCache c)) \<Longrightarrow>
   all_stale (c\<lparr>memCache := m\<rparr>) t"
  by (auto simp: all_stale_def)

lemma all_stale_Add:
  "all_stale c t \<Longrightarrow> expiresAt e \<le> t \<Longrightarrow>
   all_stale (c\<lparr>memCache := lru_Add (memCache c) k e\<rparr>) t"
  using lru_Add_items [of "memCache c" k e] by (fastforce simp: all_stale_def)

lemma Get_redis_stale:
  "all_stale c t \<Longrightarrow> defaultTTL c = 0 \<Longrightarrow> now2 \<le> t \<Longrightarrow>
   all_stale (fst (snd (Get_redis c r now2 key))) t"
  by (simp add: Get_redis_local all_stale_Add split: redis_reply.splits)

lemma Get_stale_inv:
  assumes "all_stale c t" and "defaultTTL c = 0" and "t \<le> now2"
  shows "all_stale (fst (snd (Cache_Get c r now1 now2 key))) now2"
proof -
  have c2: "all_stale c now2"
    using assms(1,3) by (rule all_stale_mono)
  show ?thesis
  proof (cases "lru_Peek (memCache c) key")
    case None
    then show ?thesis
      using c2 assms(2) by (simp add: Get_absent Get_redis_stale)
  next
    case (Some entry)
    show ?thesis
    proof (cases "now1 < expiresAt entry")
      case True
      with Some show ?thesis
        using c2 by (simp add: Get_fresh all_stale_subset lru_Get_items)
    next
      case False
      have "all_stale (c\<lparr>memCache := lru_Remove (memCache c) key\<rparr>) now2"
        using c2 by (simp add: all_stale_subset lru_Remove_items)
      with Some False show ?thesis
        using assms(2) by (simp add: Get_stale Get_redis_stale)
    qed
  qed
qed

lemma run_stale:
  "all_stale (fst s) t \<Longrightarrow> defaultTTL (fst s) = 0 \<Longrightarrow> clock_ok t ops \<Longrightarrow>
   all_stale (fst (run s ops)) (last_reading t ops)"
proof (induction ops arbitrary: s t)
  case Nil
  then show ?case by (simp add: run_Nil)
next
  case (Cons x ops)
  obtain c r where s: "s = (c, r)" by (cases s)
  have ttl: "defaultTTL (fst (step s x)) = 0"
    using Cons.prems(2) by simp
  show ?case
  proof (cases x)
    case (OpGet key now1 now2)
    with Cons.prems have "t \<le> now2" and rest: "clock_ok now2 ops" by simp_all
    then have "all_stale (fst (step s x)) now2"
      using Cons.prems(1,2) by (simp add: s OpGet Get_stale_inv)
    from Cons.IH [OF this ttl rest] show ?thesis
      by (simp add: OpGet run_Cons)
  next
    case (OpSet key v now)
    with Cons.prems have "t \<le> now" and rest: "clock_ok now ops" by simp_all
    then have "all_stale c now"
      using Cons.prems(1) by (simp add: s all_stale_mono)
    then have "all_stale (fst (step s x)) now"
      using Cons.prems(2) by (simp add: s OpSet Cache_Set_def all_stale_Add)
    from Cons.IH [OF this ttl rest] show ?thesis
      by (simp add: OpSet run_Cons)
  next
    case (OpPurge key)
    with Cons.prems have rest: "clock_ok t ops" by simp
    have "all_stale (fst (step s x)) t"
      using Cons.prems(1)
      by (simp add: s OpPurge Cache_Purge_def all_stale_subset lru_Remove_items)
    from Cons.IH [OF this ttl rest] show ?thesis
      by (simp add: OpPurge run_Cons)
  next
    case (OpRemote r')
    with Cons.prems have rest: "clock_ok t ops" by simp
    have "all_stale (fst (step s x)) t"
      using Cons.prems(1) by (simp add: s OpRemote)
    from Cons.IH [OF this ttl rest] show ?thesis
      by (simp add: OpRemote run_Cons)
  qed
qed

section \<open>Facts about the example states\<close>

lemma demo_built: "fst (New demo_opts empty_server) = Inr demo_cache"
  by (simp add: New_def lru_New_def redis_Ping_def demo_opts_def demo_cache_def
      empty_server_def)

lemma zero_built: "fst (New zero_opts empty_server) = Inr (demo_cache\<lparr>defaultTTL := 0\<rparr>)"
  by (simp add: New_def lru_New_def redis_Ping_def zero_opts_def demo_cache_def
      empty_server_def)

lemma flow_reply: "fst (redis_Get flow_server ''flow:key'') = RedisVal ''flow data''"
  by (simp add: redis_Get_def flow_server_def)

lemma stale_state_remote: "snd stale_state = flow_server"
  by (simp add: stale_state_def run_Cons run_Nil Cache_Set_def)

lemma stale_state_local:
  "lru_Peek (memCache (fst stale_state)) ''flow:key'' =
     Some \<lparr>value_bytes = ''old data'', expiresAt = 60\<rparr>"
  by (simp add: stale_state_def run_Cons run_Nil Cache_Set_def demo_cache_def)

lemma stale_state_ttl: "defaultTTL (fst stale_state) = 60"
  by (simp add: stale_state_def demo_cache_def)

lemma stale_state_reach:
  "run (demo_cache, empty_server) [OpSet ''flow:key'' ''old data'' 0, OpRemote flow_server] =
     (fst stale_state, snd stale_state)"
  by (simp add: stale_state_def)

section \<open>The package's tests, on the model\<close>

text \<open>
  The tests of \<^verbatim>\<open>cache_test.go\<close> run on the model with the results they require; the commands
  the store has seen are the expectations the tests set on the mock, in order.
\<close>

lemmas model_defs =
  run_Nil run_Cons Cache_Get_def Get_redis_def Cache_Set_def Cache_Purge_def
  lru_Get_def lru_Add_def lru_Remove_def redis_Get_def redis_Set_def redis_Del_def issue_def

lemma New_mock: "0 < n \<Longrightarrow> New (mock_opts n) r = (Inr (mock_cache n), r)"
  by (simp add: New_def lru_New_def mock_opts_def mock_cache_def)

lemma TestGetMiss:
  "results (mock_cache 10, empty_server) [OpGet ''miss:key'' 0 0] = [Inl ErrNotFound] \<and>
   commands (snd (run (mock_cache 10, empty_server) [OpGet ''miss:key'' 0 0]))
     = [GET ''miss:key'']"
  by (simp add: model_defs mock_cache_def empty_server_def)

lemma TestSetAndGet:
  "results (mock_cache 10, empty_server)
     [OpSet ''set:key'' ''some data'' 0, OpGet ''set:key'' 1 1] = [Inr ''some data''] \<and>
   commands (snd (run (mock_cache 10, empty_server)
     [OpSet ''set:key'' ''some data'' 0, OpGet ''set:key'' 1 1]))
     = [SET ''set:key'' ''some data'' 60]"
  by (simp add: model_defs mock_cache_def empty_server_def)

lemma TestCacheFlow:
  "results (mock_cache 1, empty_server)
     [OpGet ''flow:key'' 0 0, OpSet ''flow:key'' ''flow data'' 1, OpGet ''flow:key'' 2 2]
     = [Inl ErrNotFound, Inr ''flow data''] \<and>
   results flow_removed [OpGet ''flow:key'' 3 3, OpPurge ''flow:key'', OpGet ''flow:key'' 4 4]
     = [Inr ''flow data'', Inl ErrNotFound] \<and>
   commands (snd (run flow_removed
     [OpGet ''flow:key'' 3 3, OpPurge ''flow:key'', OpGet ''flow:key'' 4 4]))
     = [GET ''flow:key'', SET ''flow:key'' ''flow data'' 60, GET ''flow:key'',
        DEL ''flow:key'', GET ''flow:key'']"
  by (simp add: flow_removed_def model_defs mock_cache_def empty_server_def)

lemma TestStats:
  "MemLen (Cache_Stats (fst (run (mock_cache 10, empty_server)
     [OpSet ''key1'' ''val1'' 0, OpSet ''key2'' ''val2'' 0]))) = 2 \<and>
   set (MemKeys (Cache_Stats (fst (run (mock_cache 10, empty_server)
     [OpSet ''key1'' ''val1'' 0, OpSet ''key2'' ''val2'' 0])))) = {''key1'', ''key2''}"
  by (simp add: model_defs Cache_Stats_def lru_Len_def lru_Keys_def mock_cache_def
      empty_server_def insert_commute)

text \<open>
  With a capacity of one, writing a second key evicts the first from the local layer; the
  first is then served from the remote store and repopulated, which evicts the second.
\<close>

lemma capacity_one:
  "results (mock_cache 1, empty_server)
     [OpSet ''x'' ''1'' 0, OpGet ''x'' 0 0, OpSet ''y'' ''2'' 0, OpGet ''x'' 0 0]
     = [Inr ''1'', Inr ''1''] \<and>
   lru_Keys (memCache (fst (run (mock_cache 1, empty_server)
     [OpSet ''x'' ''1'' 0, OpGet ''x'' 0 0, OpSet ''y'' ''2'' 0]))) = [''y''] \<and>
   lru_Keys (memCache (fst (run (mock_cache 1, empty_server)
     [OpSet ''x'' ''1'' 0, OpGet ''x'' 0 0, OpSet ''y'' ''2'' 0, OpGet ''x'' 0 0]))) = [''x''] \<and>
   commands (snd (run (mock_cache 1, empty_server)
     [OpSet ''x'' ''1'' 0, OpGet ''x'' 0 0, OpSet ''y'' ''2'' 0, OpGet ''x'' 0 0]))
     = [SET ''x'' ''1'' 60, SET ''y'' ''2'' 60, GET ''x'']"
  by (simp add: model_defs lru_Keys_def mock_cache_def empty_server_def)

section \<open>Claims\<close>

subsection \<open>Remote fallback and repopulation\<close>

text \<open>
  C1. Let the orchestrator be one that \<^verbatim>\<open>New\<close> built, in any state it can be in. If the local
  layer holds no unexpired entry for \<open>key\<close> (the key is absent, or its entry has expired) and
  the lookup in the remote store finds the value \<open>v\<close>, then \<^verbatim>\<open>Get(key)\<close> returns \<open>v\<close> and
  leaves the entry \<open>{value = v, expiresAt = now2 + defaultTTL}\<close> in the local layer, where
  \<open>now2\<close> is the reading of the clock at the repopulation; and a following \<^verbatim>\<open>Get(key)\<close> at
  any reading \<open>now3\<close> before that expiry returns \<open>v\<close> and leaves the remote store, the list
  of commands issued to it included, as it was.
\<close>

theorem Get_repopulates:
  assumes built: "fst (New opts r0) = Inr c0"
    and reach: "run (c0, r1) ops = (c, r)"
    and not_fresh: "\<not> fresh_local c now1 key"
    and remote: "fst (redis_Get r key) = RedisVal v"
    and first: "Cache_Get c r now1 now2 key = (res, c', r')"
  shows "res = Inr v \<and>
         lru_Peek (memCache c') key =
           Some \<lparr>value_bytes = v, expiresAt = now2 + defaultTTL c\<rparr> \<and>
         (\<forall>now3 now4 r''. now3 < now2 + defaultTTL c \<longrightarrow>
            fst (Cache_Get c' r'' now3 now4 key) = Inr v \<and>
            snd (snd (Cache_Get c' r'' now3 now4 key)) = r'')"
proof -
  have pos: "0 < lru_size (memCache c)"
    using built reach by (rule reach_size)
  have via_redis: "\<exists>m. lru_size m = lru_size (memCache c) \<and>
      Cache_Get c r now1 now2 key = Get_redis (c\<lparr>memCache := m\<rparr>) r now2 key"
  proof (cases "lru_Peek (memCache c) key")
    case None
    then have "Cache_Get c r now1 now2 key =
        Get_redis (c\<lparr>memCache := memCache c\<rparr>) r now2 key"
      by (simp add: Get_absent)
    then show ?thesis by blast
  next
    case (Some entry)
    with not_fresh have "\<not> now1 < expiresAt entry"
      by (simp add: fresh_local_def)
    with Some have "Cache_Get c r now1 now2 key =
        Get_redis (c\<lparr>memCache := lru_Remove (memCache c) key\<rparr>) r now2 key"
      by (rule Get_stale)
    moreover have "lru_size (lru_Remove (memCache c) key) = lru_size (memCache c)"
      by simp
    ultimately show ?thesis by blast
  qed
  then obtain m where m: "lru_size m = lru_size (memCache c)"
    and get: "Cache_Get c r now1 now2 key = Get_redis (c\<lparr>memCache := m\<rparr>) r now2 key"
    by blast
  from get first remote have res: "res = Inr v"
    and c': "c' = c\<lparr>memCache := lru_Add m key
        \<lparr>value_bytes = v, expiresAt = now2 + defaultTTL c\<rparr>\<rparr>"
    by (simp_all add: Get_redis_def)
  have peek: "lru_Peek (memCache c') key =
      Some \<lparr>value_bytes = v, expiresAt = now2 + defaultTTL c\<rparr>"
    using pos m by (simp add: c')
  have again: "fst (Cache_Get c' r'' now3 now4 key) = Inr v \<and>
      snd (snd (Cache_Get c' r'' now3 now4 key)) = r''"
    if "now3 < now2 + defaultTTL c" for now3 now4 r''
    using Get_fresh [OF peek, of now3 r'' now4] that by simp
  show ?thesis
    using res peek again by blast
qed

text \<open>
  An instance, step 4 of \<^verbatim>\<open>TestCacheFlow\<close>: the local layer is empty, the remote store holds
  \<^verbatim>\<open>"flow data"\<close>; the first \<^verbatim>\<open>Get\<close> at time 100 (repopulating at 101) returns it and the local
  entry expires at 161; the second \<^verbatim>\<open>Get\<close> at time 150 returns it and issues no command.
\<close>

theorem Get_repopulates_witness:
  "fst (Cache_Get demo_cache flow_server 100 101 ''flow:key'') = Inr ''flow data'' \<and>
   lru_Peek (memCache (fst (snd (Cache_Get demo_cache flow_server 100 101 ''flow:key''))))
      ''flow:key'' = Some \<lparr>value_bytes = ''flow data'', expiresAt = 161\<rparr> \<and>
   fst (Cache_Get (fst (snd (Cache_Get demo_cache flow_server 100 101 ''flow:key'')))
      (snd (snd (Cache_Get demo_cache flow_server 100 101 ''flow:key''))) 150 150 ''flow:key'')
     = Inr ''flow data'' \<and>
   snd (snd (Cache_Get (fst (snd (Cache_Get demo_cache flow_server 100 101 ''flow:key'')))
      (snd (snd (Cache_Get demo_cache flow_server 100 101 ''flow:key''))) 150 150 ''flow:key''))
     = snd (snd (Cache_Get demo_cache flow_server 100 101 ''flow:key''))"
proof -
  have reach: "run (demo_cache, flow_server) [] = (demo_cache, flow_server)"
    by (rule run_Nil)
  have not_fresh: "\<not> fresh_local demo_cache 100 ''flow:key''"
    by (simp add: fresh_local_def lru_Peek_def demo_cache_def)
  have first: "Cache_Get demo_cache flow_server 100 101 ''flow:key'' =
      (fst (Cache_Get demo_cache flow_server 100 101 ''flow:key''),
       fst (snd (Cache_Get demo_cache flow_server 100 101 ''flow:key'')),
       snd (snd (Cache_Get demo_cache flow_server 100 101 ''flow:key'')))"
    by simp
  have ttl: "defaultTTL demo_cache = 60"
    by (simp add: demo_cache_def)
  show ?thesis
    using Get_repopulates [OF demo_built reach not_fresh flow_reply first] ttl
    by simp
qed

subsection \<open>Local hit after Set\<close>

text \<open>
  C2. Let the orchestrator be one that \<^verbatim>\<open>New\<close> built, in any state it can be in. After
  \<^verbatim>\<open>Set(key, v)\<close> at the reading \<open>now\<close>, a \<^verbatim>\<open>Get(key)\<close> at any reading \<open>now1\<close> before the
  time-to-live has elapsed (\<open>now1 < now + defaultTTL\<close>, which a clock that does not go
  backwards allows only for a positive time-to-live) returns \<open>v\<close> and performs no call of
  the remote store: the state of the store, the list of commands issued to it included, is
  the one \<^verbatim>\<open>Set\<close> left.
\<close>

theorem Set_then_Get_local_hit:
  assumes built: "fst (New opts r0) = Inr c0"
    and reach: "run (c0, r1) ops = (c, r)"
    and after_set: "Cache_Set c r now key v = (c', r')"
    and in_ttl: "now1 < now + defaultTTL c"
  shows "fst (Cache_Get c' r' now1 now2 key) = Inr v \<and>
         snd (snd (Cache_Get c' r' now1 now2 key)) = r' \<and>
         commands (snd (snd (Cache_Get c' r' now1 now2 key))) = commands r'"
proof -
  have pos: "0 < lru_size (memCache c)"
    using built reach by (rule reach_size)
  have c': "c' = c\<lparr>memCache := lru_Add (memCache c) key
       \<lparr>value_bytes = v, expiresAt = now + defaultTTL c\<rparr>\<rparr>"
    using after_set by (simp add: Cache_Set_def)
  have peek: "lru_Peek (memCache c') key =
      Some \<lparr>value_bytes = v, expiresAt = now + defaultTTL c\<rparr>"
    using pos by (simp add: c')
  show ?thesis
    using Get_fresh [OF peek, of now1 r' now2] in_ttl by simp
qed

text \<open>
  An instance, \<^verbatim>\<open>TestSetAndGet\<close>: \<^verbatim>\<open>Set\<close> at time 0 with a time-to-live of 60, \<^verbatim>\<open>Get\<close> at
  time 1; the only command the store has seen is the \<^verbatim>\<open>SET\<close>.
\<close>

theorem Set_then_Get_local_hit_witness:
  "fst (Cache_Get (fst (Cache_Set demo_cache empty_server 0 ''set:key'' ''some data''))
      (snd (Cache_Set demo_cache empty_server 0 ''set:key'' ''some data'')) 1 1 ''set:key'')
     = Inr ''some data'' \<and>
   commands (snd (snd (Cache_Get
      (fst (Cache_Set demo_cache empty_server 0 ''set:key'' ''some data''))
      (snd (Cache_Set demo_cache empty_server 0 ''set:key'' ''some data'')) 1 1 ''set:key'')))
     = [SET ''set:key'' ''some data'' 60]"
proof -
  have reach: "run (demo_cache, empty_server) [] = (demo_cache, empty_server)"
    by (rule run_Nil)
  have after_set: "Cache_Set demo_cache empty_server 0 ''set:key'' ''some data'' =
      (fst (Cache_Set demo_cache empty_server 0 ''set:key'' ''some data''),
       snd (Cache_Set demo_cache empty_server 0 ''set:key'' ''some data''))"
    by simp
  have in_ttl: "1 < 0 + defaultTTL demo_cache"
    by (simp add: demo_cache_def)
  have sent: "commands (snd (Cache_Set demo_cache empty_server 0 ''set:key'' ''some data''))
      = [SET ''set:key'' ''some data'' 60]"
    by (simp add: Cache_Set_def redis_Set_def issue_def demo_cache_def empty_server_def)
  show ?thesis
    using Set_then_Get_local_hit [OF demo_built reach after_set in_ttl, of 1] sent
    by simp
qed

subsection \<open>Expired entries\<close>

text \<open>
  C3. Let the orchestrator be one that \<^verbatim>\<open>New\<close> built, in any state it can be in, and let the
  local layer hold for \<open>key\<close> an entry whose \<open>expiresAt\<close> is in the past at the reading
  \<open>now1\<close>. Then \<^verbatim>\<open>Get(key)\<close> treats the entry as absent: the call is the lookup in the remote
  store run on the cache from which the entry has been removed; what it returns is decided by
  the answer of the remote store alone, never read from the stale entry; the lookup in the
  remote store is made; and afterwards the local layer holds for \<open>key\<close> the entry repopulated
  from the remote value, or nothing when the remote store had no value or failed.
\<close>

theorem Get_expired_entry:
  assumes built: "fst (New opts r0) = Inr c0"
    and reach: "run (c0, r1) ops = (c, r)"
    and held: "lru_Peek (memCache c) key = Some entry"
    and past: "expiresAt entry < now1"
  shows "Cache_Get c r now1 now2 key =
           Get_redis (c\<lparr>memCache := lru_Remove (memCache c) key\<rparr>) r now2 key \<and>
         lru_Peek (lru_Remove (memCache c) key) key = None \<and>
         fst (Cache_Get c r now1 now2 key) = remote_answer (fst (redis_Get r key)) \<and>
         commands (snd (snd (Cache_Get c r now1 now2 key))) = commands r @ [GET key] \<and>
         lru_Peek (memCache (fst (snd (Cache_Get c r now1 now2 key)))) key =
           (case fst (redis_Get r key) of
              RedisVal val \<Rightarrow> Some \<lparr>value_bytes = val, expiresAt = now2 + defaultTTL c\<rparr>
            | RedisNil \<Rightarrow> None
            | RedisErr err \<Rightarrow> None)"
proof -
  have pos: "0 < lru_size (memCache c)"
    using built reach by (rule reach_size)
  from past have "\<not> now1 < expiresAt entry" by simp
  with held have get: "Cache_Get c r now1 now2 key =
      Get_redis (c\<lparr>memCache := lru_Remove (memCache c) key\<rparr>) r now2 key"
    by (rule Get_stale)
  have "lru_Peek (memCache (fst (snd (Cache_Get c r now1 now2 key)))) key =
           (case fst (redis_Get r key) of
              RedisVal val \<Rightarrow> Some \<lparr>value_bytes = val, expiresAt = now2 + defaultTTL c\<rparr>
            | RedisNil \<Rightarrow> None
            | RedisErr err \<Rightarrow> None)"
    using pos by (simp add: get Get_redis_local split: redis_reply.splits)
  then show ?thesis
    by (simp add: get Get_redis_result Get_redis_remote issue_def)
qed

text \<open>
  An instance: the local layer holds \<^verbatim>\<open>"old data"\<close>, expired since time 60, and the remote
  store holds \<^verbatim>\<open>"flow data"\<close>. \<^verbatim>\<open>Get\<close> at time 61 returns the remote value, has issued one
  \<^verbatim>\<open>GET\<close>, and the local entry is the repopulated one, expiring at 62 + 60.
\<close>

theorem Get_expired_entry_witness:
  "fst (Cache_Get (fst stale_state) (snd stale_state) 61 62 ''flow:key'') = Inr ''flow data'' \<and>
   commands (snd (snd (Cache_Get (fst stale_state) (snd stale_state) 61 62 ''flow:key'')))
     = [GET ''flow:key''] \<and>
   lru_Peek (memCache (fst (snd (Cache_Get (fst stale_state) (snd stale_state) 61 62
      ''flow:key'')))) ''flow:key'' = Some \<lparr>value_bytes = ''flow data'', expiresAt = 122\<rparr>"
proof -
  have past: "expiresAt \<lparr>value_bytes = ''old data'', expiresAt = 60\<rparr> < 61"
    by simp
  have sent: "commands flow_server = []"
    by (simp add: flow_server_def)
  note expired =
    Get_expired_entry [OF demo_built stale_state_reach stale_state_local past, of 62]
  show ?thesis
    using expired [THEN conjunct2, THEN conjunct2] flow_reply sent
    by (simp add: stale_state_remote stale_state_ttl remote_answer_def)
qed

subsection \<open>The outcomes of Get\<close>

text \<open>
  C4. \<^verbatim>\<open>Get(key)\<close> returns exactly one of three outcomes: a value (with no error), the
  sentinel \<open>ErrNotFound\<close>, or the wrapped error of the remote lookup, which is never the
  sentinel. A value is returned exactly when the local layer holds an unexpired entry or the
  remote store has the key; \<open>ErrNotFound\<close> exactly when the local layer holds no unexpired
  entry and the remote store reports the key absent; the wrapped error exactly when the local
  layer holds no unexpired entry and the remote lookup failed for another reason. So
  \<open>ErrNotFound\<close> is never returned when the remote lookup failed for a reason other than
  absence, and the errors of construction are never returned.
\<close>

theorem Get_three_outcomes:
  "((\<exists>val. fst (Cache_Get c r now1 now2 key) = Inr val) \<or>
    fst (Cache_Get c r now1 now2 key) = Inl ErrNotFound \<or>
    (\<exists>err. fst (Cache_Get c r now1 now2 key) = Inl (RedisGetError err))) \<and>
   ((\<exists>val. fst (Cache_Get c r now1 now2 key) = Inr val) =
      (fresh_local c now1 key \<or> (\<exists>val. fst (redis_Get r key) = RedisVal val))) \<and>
   ((fst (Cache_Get c r now1 now2 key) = Inl ErrNotFound) =
      (\<not> fresh_local c now1 key \<and> fst (redis_Get r key) = RedisNil)) \<and>
   (\<forall>err. (fst (Cache_Get c r now1 now2 key) = Inl (RedisGetError err)) =
      (\<not> fresh_local c now1 key \<and> fst (redis_Get r key) = RedisErr err)) \<and>
   (\<forall>err. fst (redis_Get r key) = RedisErr err \<longrightarrow>
      fst (Cache_Get c r now1 now2 key) \<noteq> Inl ErrNotFound) \<and>
   (\<forall>err. RedisGetError err \<noteq> ErrNotFound)"
proof (cases "lru_Peek (memCache c) key")
  case None
  then show ?thesis
    by (auto simp: Get_absent Get_redis_result remote_answer_def fresh_local_def
        split: redis_reply.splits)
next
  case (Some entry)
  show ?thesis
  proof (cases "now1 < expiresAt entry")
    case True
    with Some show ?thesis
      by (simp add: Get_fresh fresh_local_def)
  next
    case False
    with Some show ?thesis
      by (auto simp: Get_stale Get_redis_result remote_answer_def fresh_local_def
          split: redis_reply.splits)
  qed
qed

text \<open>
  An instance, with an empty local layer: when the store refuses the call, \<^verbatim>\<open>Get\<close> returns the
  wrapped error and not \<open>ErrNotFound\<close>; when the store is healthy and empty
  (\<^verbatim>\<open>TestGetMiss\<close>), it returns \<open>ErrNotFound\<close>.
\<close>

theorem Get_three_outcomes_witness:
  "fst (Cache_Get demo_cache down_server 0 0 ''miss:key'')
     = Inl (RedisGetError ''connection refused'') \<and>
   fst (Cache_Get demo_cache down_server 0 0 ''miss:key'') \<noteq> Inl ErrNotFound \<and>
   fst (Cache_Get demo_cache empty_server 0 0 ''miss:key'') = Inl ErrNotFound"
proof -
  have not_fresh: "\<not> fresh_local demo_cache 0 ''miss:key''"
    by (simp add: fresh_local_def lru_Peek_def demo_cache_def)
  have down: "fst (redis_Get down_server ''miss:key'') = RedisErr ''connection refused''"
    by (simp add: redis_Get_def down_server_def)
  have miss: "fst (redis_Get empty_server ''miss:key'') = RedisNil"
    by (simp add: redis_Get_def empty_server_def)
  from Get_three_outcomes [of demo_cache down_server 0 0 "''miss:key''"] not_fresh down
  have "fst (Cache_Get demo_cache down_server 0 0 ''miss:key'')
          = Inl (RedisGetError ''connection refused'') \<and>
        fst (Cache_Get demo_cache down_server 0 0 ''miss:key'') \<noteq> Inl ErrNotFound"
    by simp
  moreover from Get_three_outcomes [of demo_cache empty_server 0 0 "''miss:key''"]
    not_fresh miss
  have "fst (Cache_Get demo_cache empty_server 0 0 ''miss:key'') = Inl ErrNotFound"
    by simp
  ultimately show ?thesis by simp
qed

subsection \<open>Construction\<close>

text \<open>
  C5. \<^verbatim>\<open>New\<close> with \<open>MaxMemEntries \<le> 0\<close> returns an error, the wrapped error of the
  construction of the in-memory cache, and no orchestrator, and leaves the remote store
  untouched; and when \<^verbatim>\<open>New\<close> succeeds, the capacity was positive and the orchestrator's local
  layer is empty: no entry, length 0, no key, also as \<^verbatim>\<open>Stats\<close> reports them.
\<close>

theorem New_capacity_and_empty:
  "(MaxMemEntries opts \<le> 0 \<longrightarrow>
      (\<exists>err. New opts r = (Inl (MemCacheError err), r))) \<and>
   (\<forall>c. fst (New opts r) = Inr c \<longrightarrow>
      0 < MaxMemEntries opts \<and>
      lru_items (memCache c) = [] \<and>
      lru_Len (memCache c) = 0 \<and> lru_Keys (memCache c) = [] \<and>
      MemLen (Cache_Stats c) = 0 \<and> MemKeys (Cache_Stats c) = [])"
  by (auto simp: New_def lru_New_def lru_Len_def lru_Keys_def Cache_Stats_def
      split: if_splits option.splits)

text \<open>
  An instance: a capacity of 0 is refused, and the configuration of the tests gives an
  orchestrator with an empty local layer.
\<close>

theorem New_capacity_and_empty_witness:
  "(\<exists>err. New bad_opts empty_server = (Inl (MemCacheError err), empty_server)) \<and>
   (\<exists>c. fst (New demo_opts empty_server) = Inr c \<and>
        lru_Len (memCache c) = 0 \<and> lru_Keys (memCache c) = [] \<and>
        MemLen (Cache_Stats c) = 0 \<and> MemKeys (Cache_Stats c) = [])"
proof -
  have bad: "MaxMemEntries bad_opts \<le> 0"
    by (simp add: bad_opts_def)
  from New_capacity_and_empty [of bad_opts empty_server] bad
  have "\<exists>err. New bad_opts empty_server = (Inl (MemCacheError err), empty_server)"
    by blast
  moreover from New_capacity_and_empty [of demo_opts empty_server] demo_built
  have "lru_Len (memCache demo_cache) = 0 \<and> lru_Keys (memCache demo_cache) = [] \<and>
        MemLen (Cache_Stats demo_cache) = 0 \<and> MemKeys (Cache_Stats demo_cache) = []"
    by blast
  ultimately show ?thesis
    using demo_built by blast
qed

subsection \<open>Purge\<close>

text \<open>
  C6, as amended. When the remote store is not failing, after \<^verbatim>\<open>Set(key, v)\<close> followed by
  \<^verbatim>\<open>Purge(key)\<close>, with nothing else touching the store in between, the key is in neither
  layer and \<^verbatim>\<open>Get(key)\<close> returns \<open>ErrNotFound\<close>.
\<close>

theorem Purge_then_Get_NotFound:
  assumes healthy: "fault r = None"
    and seq: "run (c, r) [OpSet key v now, OpPurge key] = (c', r')"
  shows "lru_Peek (memCache c') key = None \<and> store r' key = None \<and>
         fst (Cache_Get c' r' now1 now2 key) = Inl ErrNotFound"
proof -
  from seq have c': "c' = fst (Cache_Purge (fst (Cache_Set c r now key v))
        (snd (Cache_Set c r now key v)) key)"
    and r': "r' = redis_Del (redis_Set r key v (defaultTTL c)) key"
    by (simp_all add: run_Cons run_Nil Cache_Set_def Cache_Purge_def)
  have peek: "lru_Peek (memCache c') key = None"
    by (simp add: c' Cache_Purge_def)
  have gone: "store r' key = None" and up: "fault r' = None"
    using healthy by (simp_all add: r' redis_Del_def redis_Set_def issue_def)
  then have "fst (redis_Get r' key) = RedisNil"
    by (simp add: redis_Get_def)
  with peek gone show ?thesis
    by (simp add: Get_absent Get_redis_result remote_answer_def)
qed

text \<open>An instance, steps 2, 5 and 6 of \<^verbatim>\<open>TestCacheFlow\<close>, on a healthy store.\<close>

theorem Purge_then_Get_NotFound_witness:
  "fst (Cache_Get
      (fst (run (demo_cache, empty_server) [OpSet ''flow:key'' ''flow data'' 0,
         OpPurge ''flow:key'']))
      (snd (run (demo_cache, empty_server) [OpSet ''flow:key'' ''flow data'' 0,
         OpPurge ''flow:key''])) 1 1 ''flow:key'') = Inl ErrNotFound"
proof -
  have healthy: "fault empty_server = None"
    by (simp add: empty_server_def)
  have seq: "run (demo_cache, empty_server) [OpSet ''flow:key'' ''flow data'' 0,
        OpPurge ''flow:key''] =
      (fst (run (demo_cache, empty_server) [OpSet ''flow:key'' ''flow data'' 0,
         OpPurge ''flow:key'']),
       snd (run (demo_cache, empty_server) [OpSet ''flow:key'' ''flow data'' 0,
         OpPurge ''flow:key'']))"
    by (rule prod.collapse [symmetric])
  show ?thesis
    using Purge_then_Get_NotFound [OF healthy seq, of 1 1] by blast
qed

text \<open>
  The claim as first stated, without the condition on the store, fails: while the store
  refuses every call, \<^verbatim>\<open>Set\<close> and \<^verbatim>\<open>Purge\<close> drop the errors of their remote calls, and the
  \<^verbatim>\<open>Get\<close> that follows returns the wrapped error of its lookup, not \<open>ErrNotFound\<close>.
\<close>

theorem Purge_then_Get_counterexample:
  "fst (Cache_Get
      (fst (run (demo_cache, down_server) [OpSet ''flow:key'' ''flow data'' 0,
         OpPurge ''flow:key'']))
      (snd (run (demo_cache, down_server) [OpSet ''flow:key'' ''flow data'' 0,
         OpPurge ''flow:key''])) 1 1 ''flow:key'')
     = Inl (RedisGetError ''connection refused'') \<and>
   fst (Cache_Get
      (fst (run (demo_cache, down_server) [OpSet ''flow:key'' ''flow data'' 0,
         OpPurge ''flow:key'']))
      (snd (run (demo_cache, down_server) [OpSet ''flow:key'' ''flow data'' 0,
         OpPurge ''flow:key''])) 1 1 ''flow:key'')
     \<noteq> Inl ErrNotFound"
  by (simp add: run_Cons run_Nil Cache_Set_def Cache_Purge_def Cache_Get_def Get_redis_def
      lru_Add_def lru_Remove_def lru_Get_def redis_Set_def redis_Del_def redis_Get_def
      issue_def demo_cache_def down_server_def)

subsection \<open>A time-to-live of zero\<close>

text \<open>
  C7. Let \<^verbatim>\<open>New\<close> build the orchestrator with a default time-to-live of zero, and let any
  sequence of \<^verbatim>\<open>Get\<close>, \<^verbatim>\<open>Set\<close> and \<^verbatim>\<open>Purge\<close> calls (and changes of the remote store) follow,
  on a clock that does not go backwards. Then every entry that \<^verbatim>\<open>Set\<close> wrote or \<^verbatim>\<open>Get\<close>
  repopulated is stale at once: for every key, a \<^verbatim>\<open>Get\<close> at a reading at or after the last
  one finds no unexpired local entry, returns what the remote store answers, and issues its
  lookup to the remote store.
\<close>

theorem zero_ttl_disables_local_layer:
  assumes built: "fst (New opts r0) = Inr c0"
    and zero: "DefaultTTL opts = 0"
    and clock: "clock_ok t0 ops"
    and reach: "run (c0, r1) ops = (c, r)"
    and later: "last_reading t0 ops \<le> now1"
  shows "\<not> fresh_local c now1 key \<and>
         fst (Cache_Get c r now1 now2 key) = remote_answer (fst (redis_Get r key)) \<and>
         commands (snd (snd (Cache_Get c r now1 now2 key))) = commands r @ [GET key]"
proof -
  have "all_stale c0 t0"
    using New_empty [OF built] by (simp add: all_stale_def)
  moreover have "defaultTTL c0 = 0"
    using New_ttl [OF built] zero by simp
  ultimately have "all_stale (fst (run (c0, r1) ops)) (last_reading t0 ops)"
    using clock run_stale [of "(c0, r1)" t0 ops] by simp
  then have stale: "all_stale c now1"
    using reach later by (simp add: all_stale_mono)
  have not_fresh: "\<not> fresh_local c now1 key"
  proof (cases "lru_Peek (memCache c) key")
    case None
    then show ?thesis by (simp add: fresh_local_def)
  next
    case (Some entry)
    then have "(key, entry) \<in> set (lru_items (memCache c))"
      by (rule lru_Peek_in_items)
    with stale have "expiresAt entry \<le> now1"
      by (auto simp: all_stale_def)
    with Some show ?thesis by (simp add: fresh_local_def)
  qed
  have "\<exists>m. Cache_Get c r now1 now2 key = Get_redis (c\<lparr>memCache := m\<rparr>) r now2 key"
  proof (cases "lru_Peek (memCache c) key")
    case None
    then have "Cache_Get c r now1 now2 key =
        Get_redis (c\<lparr>memCache := memCache c\<rparr>) r now2 key"
      by (simp add: Get_absent)
    then show ?thesis by blast
  next
    case (Some entry)
    with not_fresh have "\<not> now1 < expiresAt entry"
      by (simp add: fresh_local_def)
    with Some show ?thesis
      by (blast dest: Get_stale)
  qed
  then obtain m where
    "Cache_Get c r now1 now2 key = Get_redis (c\<lparr>memCache := m\<rparr>) r now2 key"
    by blast
  with not_fresh show ?thesis
    by (simp add: Get_redis_result Get_redis_remote issue_def)
qed

text \<open>
  An instance: with a time-to-live of zero, \<^verbatim>\<open>Set\<close> at time 5 and \<^verbatim>\<open>Get\<close> at the same time 5;
  the value comes from the remote store, which has seen the \<^verbatim>\<open>SET\<close> and then the \<^verbatim>\<open>GET\<close>.
\<close>

theorem zero_ttl_disables_local_layer_witness:
  "fst (Cache_Get (fst (run (demo_cache\<lparr>defaultTTL := 0\<rparr>, empty_server) [OpSet ''k'' ''v'' 5]))
      (snd (run (demo_cache\<lparr>defaultTTL := 0\<rparr>, empty_server) [OpSet ''k'' ''v'' 5])) 5 5 ''k'')
     = Inr ''v'' \<and>
   commands (snd (snd (Cache_Get
      (fst (run (demo_cache\<lparr>defaultTTL := 0\<rparr>, empty_server) [OpSet ''k'' ''v'' 5]))
      (snd (run (demo_cache\<lparr>defaultTTL := 0\<rparr>, empty_server) [OpSet ''k'' ''v'' 5])) 5 5 ''k'')))
     = [SET ''k'' ''v'' 0, GET ''k'']"
proof -
  have zero: "DefaultTTL zero_opts = 0"
    by (simp add: zero_opts_def)
  have clock: "clock_ok 0 [OpSet ''k'' ''v'' 5]"
    by simp
  have reach: "run (demo_cache\<lparr>defaultTTL := 0\<rparr>, empty_server) [OpSet ''k'' ''v'' 5] =
      (fst (run (demo_cache\<lparr>defaultTTL := 0\<rparr>, empty_server) [OpSet ''k'' ''v'' 5]),
       snd (run (demo_cache\<lparr>defaultTTL := 0\<rparr>, empty_server) [OpSet ''k'' ''v'' 5]))"
    by (rule prod.collapse [symmetric])
  have later: "last_reading 0 [OpSet ''k'' ''v'' 5] \<le> 5"
    by simp
  have remote: "snd (run (demo_cache\<lparr>defaultTTL := 0\<rparr>, empty_server) [OpSet ''k'' ''v'' 5]) =
      \<lparr>store = [''k'' \<mapsto> (''v'', 0)], fault = None, commands = [SET ''k'' ''v'' 0]\<rparr>"
    by (simp add: run_Cons run_Nil Cache_Set_def redis_Set_def issue_def demo_cache_def
        empty_server_def)
  show ?thesis
    using zero_ttl_disables_local_layer [OF zero_built zero clock reach later, of "''k''" 5]
    by (simp add: remote redis_Get_def remote_answer_def)
qed

subsection \<open>Get leaves the remote store as it is\<close>

text \<open>
  C8. \<^verbatim>\<open>Get\<close> never writes to the remote store: in every state of the orchestrator and of
  the store, the contents of the store (for every key, its value and the time-to-live it was
  written with) and its health are the same after \<^verbatim>\<open>Get(key)\<close> as before, and the only
  command \<^verbatim>\<open>Get\<close> may have issued is the lookup of the key, also when it repopulates the local
  layer after a remote hit.
\<close>

theorem Get_never_writes_remote:
  "store (snd (snd (Cache_Get c r now1 now2 key))) = store r \<and>
   fault (snd (snd (Cache_Get c r now1 now2 key))) = fault r \<and>
   (commands (snd (snd (Cache_Get c r now1 now2 key))) = commands r \<or>
    commands (snd (snd (Cache_Get c r now1 now2 key))) = commands r @ [GET key])"
proof (cases "lru_Peek (memCache c) key")
  case None
  then show ?thesis
    by (simp add: Get_absent Get_redis_remote issue_def)
next
  case (Some entry)
  then show ?thesis
    by (cases "now1 < expiresAt entry")
       (simp_all add: Get_fresh Get_stale Get_redis_remote issue_def)
qed

text \<open>
  An instance: a \<^verbatim>\<open>Get\<close> that repopulates the local layer from the remote store leaves the
  remote value and its time-to-live of 60 as they were.
\<close>

theorem Get_never_writes_remote_witness:
  "store (snd (snd (Cache_Get demo_cache flow_server 100 101 ''flow:key''))) ''flow:key''
     = Some (''flow data'', 60) \<and>
   fst (Cache_Get demo_cache flow_server 100 101 ''flow:key'') = Inr ''flow data''"
proof -
  have "store flow_server ''flow:key'' = Some (''flow data'', 60)"
    by (simp add: flow_server_def)
  moreover have "fst (Cache_Get demo_cache flow_server 100 101 ''flow:key'') = Inr ''flow data''"
    by (simp add: Get_absent Get_redis_result remote_answer_def flow_reply lru_Peek_def
        demo_cache_def)
  ultimately show ?thesis
    using Get_never_writes_remote [of demo_cache flow_server 100 101 "''flow:key''"]
    by simp
qed

subsection \<open>The comparison with the expiry is strict\<close>

text \<open>
  C9. Let the orchestrator be one that \<^verbatim>\<open>New\<close> built, in any state it can be in, and let the
  local layer hold an entry for \<open>key\<close>. A \<^verbatim>\<open>Get(key)\<close> whose reading of the clock is exactly
  the entry's \<open>expiresAt\<close> treats the entry as expired: what it returns is decided by the
  answer of the remote store, the lookup in the remote store is issued, and the entry is gone
  from the local layer (replaced by the repopulated entry when the remote store has the key).
  The entry is returned as a local hit, with the remote store untouched, exactly at the
  readings strictly before \<open>expiresAt\<close>.
\<close>

theorem expiry_is_strict:
  assumes built: "fst (New opts r0) = Inr c0"
    and reach: "run (c0, r1) ops = (c, r)"
    and held: "lru_Peek (memCache c) key = Some entry"
  shows "fst (Cache_Get c r (expiresAt entry) now2 key) =
           remote_answer (fst (redis_Get r key)) \<and>
         commands (snd (snd (Cache_Get c r (expiresAt entry) now2 key))) =
           commands r @ [GET key] \<and>
         lru_Peek (memCache (fst (snd (Cache_Get c r (expiresAt entry) now2 key)))) key =
           (case fst (redis_Get r key) of
              RedisVal val \<Rightarrow> Some \<lparr>value_bytes = val, expiresAt = now2 + defaultTTL c\<rparr>
            | RedisNil \<Rightarrow> None
            | RedisErr err \<Rightarrow> None) \<and>
         (\<forall>now1. (Cache_Get c r now1 now2 key =
                    (Inr (value_bytes entry),
                     c\<lparr>memCache := snd (lru_Get (memCache c) key)\<rparr>, r))
                 = (now1 < expiresAt entry))"
proof -
  have pos: "0 < lru_size (memCache c)"
    using built reach by (rule reach_size)
  have get: "Cache_Get c r now1 now2 key =
      Get_redis (c\<lparr>memCache := lru_Remove (memCache c) key\<rparr>) r now2 key"
    if "\<not> now1 < expiresAt entry" for now1
    using held that by (rule Get_stale)
  have local: "lru_Peek (memCache (fst (snd (Cache_Get c r (expiresAt entry) now2 key)))) key =
           (case fst (redis_Get r key) of
              RedisVal val \<Rightarrow> Some \<lparr>value_bytes = val, expiresAt = now2 + defaultTTL c\<rparr>
            | RedisNil \<Rightarrow> None
            | RedisErr err \<Rightarrow> None)"
    using pos by (simp add: get Get_redis_local split: redis_reply.splits)
  have strict: "(Cache_Get c r now1 now2 key =
        (Inr (value_bytes entry), c\<lparr>memCache := snd (lru_Get (memCache c) key)\<rparr>, r))
      = (now1 < expiresAt entry)" for now1
  proof (cases "now1 < expiresAt entry")
    case True
    with held show ?thesis by (simp add: Get_fresh)
  next
    case False
    have "snd (snd (Cache_Get c r now1 now2 key)) \<noteq> r"
      using False
      by (auto simp: get Get_redis_remote issue_def dest: arg_cong [where f = commands])
    with False show ?thesis by auto
  qed
  show ?thesis
    using local strict by (simp add: get Get_redis_result Get_redis_remote issue_def)
qed

text \<open>
  An instance: the local entry \<^verbatim>\<open>"old data"\<close> expires at time 60. \<^verbatim>\<open>Get\<close> at time 60 returns
  the remote value and has issued one \<^verbatim>\<open>GET\<close>; \<^verbatim>\<open>Get\<close> at time 59 returns the local value.
\<close>

theorem expiry_is_strict_witness:
  "fst (Cache_Get (fst stale_state) (snd stale_state) 60 60 ''flow:key'') = Inr ''flow data'' \<and>
   commands (snd (snd (Cache_Get (fst stale_state) (snd stale_state) 60 60 ''flow:key'')))
     = [GET ''flow:key''] \<and>
   fst (Cache_Get (fst stale_state) (snd stale_state) 59 60 ''flow:key'') = Inr ''old data''"
proof -
  have sent: "commands flow_server = []"
    by (simp add: flow_server_def)
  have before: "(59::int) < 60"
    by simp
  note strict = expiry_is_strict [OF demo_built stale_state_reach stale_state_local, of 60]
  from strict before
  have "Cache_Get (fst stale_state) (snd stale_state) 59 60 ''flow:key'' =
      (Inr ''old data'',
       (fst stale_state)\<lparr>memCache := snd (lru_Get (memCache (fst stale_state)) ''flow:key'')\<rparr>,
       snd stale_state)"
    by simp
  then have "fst (Cache_Get (fst stale_state) (snd stale_state) 59 60 ''flow:key'')
      = Inr ''old data''"
    by simp
  moreover from strict flow_reply sent
  have "fst (Cache_Get (fst stale_state) (snd stale_state) 60 60 ''flow:key'')
          = Inr ''flow data'' \<and>
        commands (snd (snd (Cache_Get (fst stale_state) (snd stale_state) 60 60 ''flow:key'')))
          = [GET ''flow:key'']"
    by (simp add: stale_state_remote remote_answer_def)
  ultimately show ?thesis by simp
qed

subsection \<open>Stats\<close>

text \<open>
  C10. The \<open>MemHits\<close>, \<open>MemMisses\<close> and \<open>MemEvicts\<close> fields of the value returned by
  \<^verbatim>\<open>Stats()\<close> are zero in every state, in particular after any sequence of \<^verbatim>\<open>Get\<close>, \<^verbatim>\<open>Set\<close>
  and \<^verbatim>\<open>Purge\<close> calls (and of changes of the remote store): no operation keeps such
  counters, and \<^verbatim>\<open>Stats\<close> fills in the length and the keys of the in-memory cache only.
\<close>

theorem Stats_counters_zero:
  "MemHits (Cache_Stats (fst (run (c, r) ops))) = 0 \<and>
   MemMisses (Cache_Stats (fst (run (c, r) ops))) = 0 \<and>
   MemEvicts (Cache_Stats (fst (run (c, r) ops))) = 0 \<and>
   MemLen (Cache_Stats (fst (run (c, r) ops))) = lru_Len (memCache (fst (run (c, r) ops))) \<and>
   MemKeys (Cache_Stats (fst (run (c, r) ops))) = lru_Keys (memCache (fst (run (c, r) ops)))"
  by (simp add: Cache_Stats_def)

text \<open>
  An instance, \<^verbatim>\<open>TestStats\<close> followed by a lookup that misses and one that hits: the counters
  are zero, the length is 2 and the keys are the two keys written.
\<close>

theorem Stats_counters_zero_witness:
  "MemHits (Cache_Stats (fst (run (demo_cache, empty_server)
      [OpSet ''key1'' ''val1'' 0, OpSet ''key2'' ''val2'' 0, OpGet ''key3'' 1 1,
       OpGet ''key1'' 2 2]))) = 0 \<and>
   MemMisses (Cache_Stats (fst (run (demo_cache, empty_server)
      [OpSet ''key1'' ''val1'' 0, OpSet ''key2'' ''val2'' 0, OpGet ''key3'' 1 1,
       OpGet ''key1'' 2 2]))) = 0 \<and>
   MemEvicts (Cache_Stats (fst (run (demo_cache, empty_server)
      [OpSet ''key1'' ''val1'' 0, OpSet ''key2'' ''val2'' 0, OpGet ''key3'' 1 1,
       OpGet ''key1'' 2 2]))) = 0 \<and>
   MemLen (Cache_Stats (fst (run (demo_cache, empty_server)
      [OpSet ''key1'' ''val1'' 0, OpSet ''key2'' ''val2'' 0, OpGet ''key3'' 1 1,
       OpGet ''key1'' 2 2]))) = 2 \<and>
   MemKeys (Cache_Stats (fst (run (demo_cache, empty_server)
      [OpSet ''key1'' ''val1'' 0, OpSet ''key2'' ''val2'' 0, OpGet ''key3'' 1 1,
       OpGet ''key1'' 2 2]))) = [''key2'', ''key1'']"
proof -
  have local: "memCache (fst (run (demo_cache, empty_server)
      [OpSet ''key1'' ''val1'' 0, OpSet ''key2'' ''val2'' 0, OpGet ''key3'' 1 1,
       OpGet ''key1'' 2 2])) =
    \<lparr>lru_size = 10,
     lru_items = [(''key1'', \<lparr>value_bytes = ''val1'', expiresAt = 60\<rparr>),
                  (''key2'', \<lparr>value_bytes = ''val2'', expiresAt = 60\<rparr>)]\<rparr>"
    by (simp add: run_Cons run_Nil Cache_Set_def Cache_Get_def Get_redis_def lru_Add_def
        lru_Get_def redis_Set_def redis_Get_def issue_def demo_cache_def empty_server_def)
  show ?thesis
    using Stats_counters_zero [of demo_cache empty_server
        "[OpSet ''key1'' ''val1'' 0, OpSet ''key2'' ''val2'' 0, OpGet ''key3'' 1 1,
          OpGet ''key1'' 2 2]"]
    by (simp add: local lru_Len_def lru_Keys_def)
qed

end
